theory Spec2Isabelle
  imports Main
begin

section \<open>Window manager (src/components/desktop/WindowManager.tsx): the model\<close>

text \<open>
  Modelled from the spec: the declaration of \<^verbatim>\<open>WindowState\<close> lives in
  \<^verbatim>\<open>./types\<close>, which is not among the sources. The fields are the ones the spec's
  data model lists and the ones \<^verbatim>\<open>Desktop.tsx\<close> passes to \<^verbatim>\<open>openWindow\<close>:
  identifier, title, icon, geometry (x, y, width, height, minimum width and height),
  the three flags, the stacking index and an opaque content payload.

  The window manager never computes with a geometry value, so their type is the
  parameter \<open>'n\<close>; the content payload has type \<open>'c\<close>. The stacking index is a
  JavaScript number that starts at 100 and only ever grows by 1: it is an \<open>int\<close> here
  (exact as long as it stays below \<open>2 ^ 53\<close>). The fields \<^verbatim>\<open>id\<close>, \<^verbatim>\<open>x\<close>, \<^verbatim>\<open>y\<close> and
  \<^verbatim>\<open>content\<close> carry the prefix \<open>win_\<close>.
\<close>

record ('n, 'c) WindowState =
  win_id :: string
  title :: string
  icon :: string
  win_x :: 'n
  win_y :: 'n
  width :: 'n
  height :: 'n
  minWidth :: 'n
  minHeight :: 'n
  isMinimized :: bool
  isMaximized :: bool
  isFocused :: bool
  zIndex :: int
  win_content :: 'c

text \<open>
  The provider holds two pieces of state, \<^verbatim>\<open>windows\<close> (initially \<^verbatim>\<open>[]\<close>) and
  \<^verbatim>\<open>topZIndex\<close> (initially 100). Every operation is a functional update of them; an
  operation is modelled as one atomic step from state to state, the steps of a
  sequence taken one after the other (the updater passed to \<^verbatim>\<open>setTopZIndex\<close> and the
  \<^verbatim>\<open>setWindows\<close> updater nested in it see the same state). Calls to the observability
  SDK do not touch this state and are left out.
\<close>

record ('n, 'c) wm_state =
  windows :: "('n, 'c) WindowState list"
  topZIndex :: int

definition initial_state :: "('n, 'c) wm_state" where
  "initial_state = \<lparr>windows = [], topZIndex = 100\<rparr>"

text \<open>
  \<^verbatim>\<open>openWindow\<close>: the argument has no \<^verbatim>\<open>zIndex\<close> and no \<^verbatim>\<open>isFocused\<close>; the model takes
  a full record and overwrites both, as the spread
  \<^verbatim>\<open>{ ...window, zIndex: newZ, isFocused: true }\<close> does.
\<close>

definition openWindow ::
  "('n, 'c) WindowState \<Rightarrow> ('n, 'c) wm_state \<Rightarrow> ('n, 'c) wm_state" where
  "openWindow window s =
     (let newZ = topZIndex s + 1; prev = windows s in
      \<lparr>windows =
         (case find (\<lambda>w. win_id w = win_id window) prev of
            Some existing \<Rightarrow>
              if isMinimized existing then
                map (\<lambda>w. if win_id w = win_id window
                          then w\<lparr>isMinimized := False, isFocused := True, zIndex := newZ\<rparr>
                          else w\<lparr>isFocused := False\<rparr>) prev
              else
                map (\<lambda>w. if win_id w = win_id window
                          then w\<lparr>isFocused := True, zIndex := newZ\<rparr>
                          else w\<lparr>isFocused := False\<rparr>) prev
          | None \<Rightarrow>
              map (\<lambda>w. w\<lparr>isFocused := False\<rparr>) prev
                @ [window\<lparr>zIndex := newZ, isFocused := True\<rparr>]),
       topZIndex = newZ\<rparr>)"

definition closeWindow :: "string \<Rightarrow> ('n, 'c) wm_state \<Rightarrow> ('n, 'c) wm_state" where
  "closeWindow i s = s\<lparr>windows := filter (\<lambda>w. win_id w \<noteq> i) (windows s)\<rparr>"

definition minimizeWindow :: "string \<Rightarrow> ('n, 'c) wm_state \<Rightarrow> ('n, 'c) wm_state" where
  "minimizeWindow i s =
     s\<lparr>windows := map (\<lambda>w. if win_id w = i
                             then w\<lparr>isMinimized := True, isFocused := False\<rparr> else w)
                      (windows s)\<rparr>"

definition maximizeWindow :: "string \<Rightarrow> ('n, 'c) wm_state \<Rightarrow> ('n, 'c) wm_state" where
  "maximizeWindow i s =
     s\<lparr>windows := map (\<lambda>w. if win_id w = i
                             then w\<lparr>isMaximized := \<not> isMaximized w\<rparr> else w)
                      (windows s)\<rparr>"

definition restoreWindow :: "string \<Rightarrow> ('n, 'c) wm_state \<Rightarrow> ('n, 'c) wm_state" where
  "restoreWindow i s =
     (let newZ = topZIndex s + 1 in
      \<lparr>windows = map (\<lambda>w. if win_id w = i
                           then w\<lparr>isMinimized := False, isFocused := True, zIndex := newZ\<rparr>
                           else w\<lparr>isFocused := False\<rparr>) (windows s),
       topZIndex = newZ\<rparr>)"

definition focusWindow :: "string \<Rightarrow> ('n, 'c) wm_state \<Rightarrow> ('n, 'c) wm_state" where
  "focusWindow i s =
     (let newZ = topZIndex s + 1 in
      \<lparr>windows = map (\<lambda>w. if win_id w = i
                           then w\<lparr>isFocused := True, zIndex := newZ\<rparr>
                           else w\<lparr>isFocused := False\<rparr>) (windows s),
       topZIndex = newZ\<rparr>)"

definition updateWindowPosition ::
  "string \<Rightarrow> 'n \<Rightarrow> 'n \<Rightarrow> ('n, 'c) wm_state \<Rightarrow> ('n, 'c) wm_state" where
  "updateWindowPosition i x y s =
     s\<lparr>windows := map (\<lambda>w. if win_id w = i then w\<lparr>win_x := x, win_y := y\<rparr> else w)
                      (windows s)\<rparr>"

definition updateWindowSize ::
  "string \<Rightarrow> 'n \<Rightarrow> 'n \<Rightarrow> ('n, 'c) wm_state \<Rightarrow> ('n, 'c) wm_state" where
  "updateWindowSize i wd ht s =
     s\<lparr>windows := map (\<lambda>w. if win_id w = i then w\<lparr>width := wd, height := ht\<rparr> else w)
                      (windows s)\<rparr>"

text \<open>
  A sequence of calls on the context value: one constructor per operation of
  \<^verbatim>\<open>WindowManagerContextType\<close>, applied from left to right.
\<close>

datatype ('n, 'c) wm_op =
    Open "('n, 'c) WindowState"
  | Close string
  | Minimize string
  | Maximize string
  | Restore string
  | Focus string
  | Move string 'n 'n
  | Resize string 'n 'n

fun apply_op :: "('n, 'c) wm_op \<Rightarrow> ('n, 'c) wm_state \<Rightarrow> ('n, 'c) wm_state" where
  "apply_op (Open w) s = openWindow w s"
| "apply_op (Close i) s = closeWindow i s"
| "apply_op (Minimize i) s = minimizeWindow i s"
| "apply_op (Maximize i) s = maximizeWindow i s"
| "apply_op (Restore i) s = restoreWindow i s"
| "apply_op (Focus i) s = focusWindow i s"
| "apply_op (Move i x y) s = updateWindowPosition i x y s"
| "apply_op (Resize i wd ht) s = updateWindowSize i wd ht s"

fun run_ops :: "('n, 'c) wm_op list \<Rightarrow> ('n, 'c) wm_state \<Rightarrow> ('n, 'c) wm_state" where
  "run_ops [] s = s"
| "run_ops (opn # ops) s = run_ops ops (apply_op opn s)"

text \<open>The properties the claims speak about.\<close>

definition focused_count :: "('n, 'c) wm_state \<Rightarrow> nat" where
  "focused_count s = length (filter isFocused (windows s))"

definition ids_distinct :: "('n, 'c) wm_state \<Rightarrow> bool" where
  "ids_distinct s = distinct (map win_id (windows s))"

definition z_bounded :: "('n, 'c) wm_state \<Rightarrow> bool" where
  "z_bounded s = list_all (\<lambda>w. zIndex w \<le> topZIndex s) (windows s)"

definition has_id :: "string \<Rightarrow> ('n, 'c) wm_state \<Rightarrow> bool" where
  "has_id i s = (i \<in> set (map win_id (windows s)))"

definition z_distinct :: "('n, 'c) wm_state \<Rightarrow> bool" where
  "z_distinct s = distinct (map zIndex (windows s))"

text \<open>The geometry of a window, together with the identifier it belongs to.\<close>

definition geometry ::
  "('n, 'c) WindowState \<Rightarrow> string \<times> 'n \<times> 'n \<times> 'n \<times> 'n \<times> 'n \<times> 'n" where
  "geometry w = (win_id w, win_x w, win_y w, width w, height w, minWidth w, minHeight w)"

subsection \<open>Concrete windows and states\<close>

text \<open>
  Two of the windows \<^verbatim>\<open>Desktop.tsx\<close> opens, with pixel geometry as \<open>int\<close> and the
  content payload left out (the icon glyphs are replaced by ASCII names). The flag
  \<open>isFocused\<close> and the index \<open>zIndex\<close> are placeholders: \<open>openWindow\<close> overwrites them.
\<close>

definition chat_window :: "(int, unit) WindowState" where
  "chat_window =
     \<lparr>win_id = ''chat'', title = ''SentryOS Chat'', icon = ''chat'',
      win_x = 200, win_y = 80, width = 500, height = 550, minWidth = 350, minHeight = 400,
      isMinimized = False, isMaximized = False, isFocused = False, zIndex = 0,
      win_content = ()\<rparr>"

definition folder_window :: "(int, unit) WindowState" where
  "folder_window =
     \<lparr>win_id = ''agents-folder'', title = ''Agents'', icon = ''folder'',
      win_x = 150, win_y = 100, width = 400, height = 350, minWidth = 300, minHeight = 250,
      isMinimized = False, isMaximized = False, isFocused = False, zIndex = 0,
      win_content = ()\<rparr>"

text \<open>The state after the chat window has been opened on the empty desktop.\<close>

definition chat_open :: "(int, unit) wm_state" where
  "chat_open = openWindow chat_window initial_state"

text \<open>The state after the chat window and then the folder window have been opened.\<close>

definition both_open :: "(int, unit) wm_state" where
  "both_open = run_ops [Open chat_window, Open folder_window] initial_state"

section \<open>JSON values as the JavaScript code sees them\<close>

text \<open>
  Both the relay endpoint (\<^verbatim>\<open>request.json()\<close>, \<^verbatim>\<open>JSON.stringify\<close>) and the chat client
  (\<^verbatim>\<open>JSON.parse\<close>) work on JSON values. Strings are lists of 8-bit characters, so the
  model covers JavaScript strings whose code units are below 256. Numbers are integers:
  the code never computes with a number of a request or of an event, it only tests one
  for being zero and prints it, and the decimal printing below is the JavaScript one for
  integers of magnitude below \<open>10 ^ 21\<close>.
\<close>

datatype json =
    JNull
  | JBool bool
  | JNum int
  | JStr string
  | JArr "json list"
  | JObj "(string \<times> json) list"

text \<open>
  \<open>property v k\<close> is the read \<^verbatim>\<open>v.k\<close> for the names the code reads (\<^verbatim>\<open>messages\<close>,
  \<^verbatim>\<open>role\<close>, \<^verbatim>\<open>content\<close>, \<^verbatim>\<open>type\<close>, \<^verbatim>\<open>text\<close>, \<^verbatim>\<open>tool\<close>, \<^verbatim>\<open>elapsed\<close>), none of which a
  prototype defines: \<open>None\<close> is \<^verbatim>\<open>undefined\<close>. Of the keys of an object the last
  occurrence counts, as after \<^verbatim>\<open>JSON.parse\<close>. The read throws a TypeError on \<^verbatim>\<open>null\<close>;
  every caller below tests for \<open>JNull\<close> before it reads a property.
\<close>

fun property :: "json \<Rightarrow> string \<Rightarrow> json option" where
  "property (JObj kvs) k = map_of (rev kvs) k"
| "property _ k = None"

text \<open>The test \<^verbatim>\<open>!v\<close> is \<open>\<not> truthy v\<close>; \<^verbatim>\<open>Array.isArray(v)\<close> is \<open>isArray v\<close>.\<close>

fun truthy :: "json option \<Rightarrow> bool" where
  "truthy None = False"
| "truthy (Some JNull) = False"
| "truthy (Some (JBool b)) = b"
| "truthy (Some (JNum n)) = (n \<noteq> 0)"
| "truthy (Some (JStr s)) = (s \<noteq> [])"
| "truthy (Some (JArr xs)) = True"
| "truthy (Some (JObj kvs)) = True"

fun isArray :: "json option \<Rightarrow> bool" where
  "isArray (Some (JArr xs)) = True"
| "isArray _ = False"

fun array_items :: "json option \<Rightarrow> json list" where
  "array_items (Some (JArr xs)) = xs"
| "array_items _ = []"

text \<open>\<^verbatim>\<open>Array.prototype.join\<close> on strings.\<close>

fun join :: "string \<Rightarrow> string list \<Rightarrow> string" where
  "join sep [] = []"
| "join sep [x] = x"
| "join sep (x # y # ys) = x @ sep @ join sep (y # ys)"

fun digits :: "nat \<Rightarrow> string" where
  "digits n = (if n < 10 then [''0123456789'' ! n]
               else digits (n div 10) @ [''0123456789'' ! (n mod 10)])"

declare digits.simps [simp del]

definition number_string :: "int \<Rightarrow> string" where
  "number_string n = (if n < 0 then ''-'' @ digits (nat (- n)) else digits (nat n))"

text \<open>
  The conversion to a string that a template literal and \<^verbatim>\<open>+=\<close> on a string apply;
  \<open>None\<close> is a thrown TypeError. An array is joined with commas, \<^verbatim>\<open>null\<close> entries
  giving the empty string. An object gives \<^verbatim>\<open>[object Object]\<close>, unless it has a key
  \<^verbatim>\<open>toString\<close> of its own: that value is not callable, \<^verbatim>\<open>valueOf\<close> does not give a
  primitive either, and the conversion throws.
\<close>

fun js_string :: "json \<Rightarrow> string option" where
  "js_string JNull = Some ''null''"
| "js_string (JBool b) = Some (if b then ''true'' else ''false'')"
| "js_string (JNum n) = Some (number_string n)"
| "js_string (JStr s) = Some s"
| "js_string (JArr xs) =
     map_option (join '','')
       (those (map (\<lambda>x. if x = JNull then Some [] else js_string x) xs))"
| "js_string (JObj kvs) =
     (if ''toString'' \<in> set (map fst kvs) then None else Some ''[object Object]'')"

fun to_string :: "json option \<Rightarrow> string option" where
  "to_string None = Some ''undefined''"
| "to_string (Some v) = js_string v"

text \<open>
  \<^verbatim>\<open>JSON.stringify\<close>: a string is quoted, with the double quote, the backslash and the
  control characters escaped. The code applies it to object literals only, whose keys
  are distinct.
\<close>

definition hex2 :: "nat \<Rightarrow> string" where
  "hex2 n = [''0123456789abcdef'' ! (n div 16), ''0123456789abcdef'' ! (n mod 16)]"

definition escape_char :: "char \<Rightarrow> string" where
  "escape_char c =
     (if c = CHR 0x22 then [CHR 0x5C, CHR 0x22]
      else if c = CHR 0x5C then [CHR 0x5C, CHR 0x5C]
      else if c = CHR 0x08 then [CHR 0x5C, CHR ''b'']
      else if c = CHR 0x0C then [CHR 0x5C, CHR ''f'']
      else if c = CHR 0x0A then [CHR 0x5C, CHR ''n'']
      else if c = CHR 0x0D then [CHR 0x5C, CHR ''r'']
      else if c = CHR 0x09 then [CHR 0x5C, CHR ''t'']
      else if (of_char c :: nat) < 32
        then [CHR 0x5C, CHR ''u'', CHR ''0'', CHR ''0''] @ hex2 (of_char c)
      else [c])"

definition quote :: "string \<Rightarrow> string" where
  "quote s = [CHR 0x22] @ concat (map escape_char s) @ [CHR 0x22]"

fun stringify :: "json \<Rightarrow> string" where
  "stringify JNull = ''null''"
| "stringify (JBool b) = (if b then ''true'' else ''false'')"
| "stringify (JNum n) = number_string n"
| "stringify (JStr s) = quote s"
| "stringify (JArr xs) = ''['' @ join '','' (map stringify xs) @ '']''"
| "stringify (JObj kvs) =
     ''{'' @ join '','' (map (\<lambda>(k, v). quote k @ '':'' @ stringify v) kvs) @ ''}''"

section \<open>Chat relay endpoint (the route handler \<^verbatim>\<open>POST\<close>): the model\<close>

definition SYSTEM_PROMPT :: string where
  "SYSTEM_PROMPT =
     ''You are a helpful personal assistant designed to help with general research, questions, and tasks.\<newline>\<newline>Your role is to:\<newline>- Answer questions on any topic accurately and thoroughly\<newline>- Help with research by searching the web for current information\<newline>- Assist with writing, editing, and brainstorming\<newline>- Provide explanations and summaries of complex topics\<newline>- Help solve problems and think through decisions\<newline>\<newline>Guidelines:\<newline>- Be friendly, clear, and conversational\<newline>- Use web search when you need current information, facts you're unsure about, or real-time data\<newline>- Keep responses concise but complete - expand when the topic warrants depth\<newline>- Use markdown formatting when it helps readability (bullet points, code blocks, etc.)\<newline>- Be honest when you don't know something and offer to search for answers''"

text \<open>
  The messages the agent SDK's \<^verbatim>\<open>query\<close> yields, as far as the handler tells them
  apart: a stream event (a content block delta carrying a text delta, or anything
  else), an assistant message with its content blocks (tool uses with a name, or
  anything else), a tool progress message (tool name, elapsed seconds), a result with its
  subtype, and every other message. The SDK is an external library; a run of it is the
  list of messages it yields and the way the iteration ends: it completes, or it throws.
\<close>

datatype delta = TextDelta string | OtherDelta

datatype stream_event = ContentBlockDelta delta | OtherStreamEvent

datatype content_block = ToolUse string | OtherBlock

datatype sdk_message =
    StreamEventMessage stream_event
  | AssistantMessage "content_block list"
  | ToolProgressMessage string int
  | ResultMessage string
  | OtherMessage

datatype ending = Completes | Throws

datatype agent_run = AgentRun "sdk_message list" ending

text \<open>The object literals the handler serialises, and the chunks it enqueues.\<close>

definition text_delta_event :: "string \<Rightarrow> json" where
  "text_delta_event text = JObj [(''type'', JStr ''text_delta''), (''text'', JStr text)]"

definition tool_start_event :: "string \<Rightarrow> json" where
  "tool_start_event name = JObj [(''type'', JStr ''tool_start''), (''tool'', JStr name)]"

definition tool_progress_event :: "string \<Rightarrow> int \<Rightarrow> json" where
  "tool_progress_event tool_name elapsed =
     JObj [(''type'', JStr ''tool_progress''), (''tool'', JStr tool_name),
           (''elapsed'', JNum elapsed)]"

definition done_event :: json where
  "done_event = JObj [(''type'', JStr ''done'')]"

definition error_event :: "string \<Rightarrow> json" where
  "error_event message = JObj [(''type'', JStr ''error''), (''message'', JStr message)]"

definition sse_data :: "json \<Rightarrow> string" where
  "sse_data ev = ''data: '' @ stringify ev @ ''\<newline>\<newline>''"

definition done_line :: string where
  "done_line = ''data: [DONE]\<newline>\<newline>''"

fun relay_block :: "content_block \<Rightarrow> string list" where
  "relay_block (ToolUse name) = [sse_data (tool_start_event name)]"
| "relay_block OtherBlock = []"

text \<open>
  The body of the \<^verbatim>\<open>for await\<close> loop: the chunks enqueued for one SDK message. (The
  counter \<^verbatim>\<open>toolCallCount\<close> is only logged and is left out.)
\<close>

fun relay_message :: "sdk_message \<Rightarrow> string list" where
  "relay_message (StreamEventMessage (ContentBlockDelta (TextDelta text))) =
     [sse_data (text_delta_event text)]"
| "relay_message (StreamEventMessage _) = []"
| "relay_message (AssistantMessage content) = concat (map relay_block content)"
| "relay_message (ToolProgressMessage tool_name elapsed_time_seconds) =
     [sse_data (tool_progress_event tool_name elapsed_time_seconds)]"
| "relay_message (ResultMessage subtype) =
     (if subtype = ''success''
      then [sse_data done_event]
      else [sse_data (error_event ''Query did not complete successfully'')])"
| "relay_message OtherMessage = []"

text \<open>
  \<^verbatim>\<open>start(controller)\<close>: everything enqueued before \<^verbatim>\<open>controller.close()\<close>. When the
  iteration completes, the handler enqueues \<^verbatim>\<open>data: [DONE]\<close>; when it throws, the
  \<^verbatim>\<open>catch\<close> block enqueues an error event and closes.
\<close>

fun stream_start :: "agent_run \<Rightarrow> string list" where
  "stream_start (AgentRun ms Completes) = concat (map relay_message ms) @ [done_line]"
| "stream_start (AgentRun ms Throws) =
     concat (map relay_message ms) @ [sse_data (error_event ''Stream error occurred'')]"

text \<open>
  A response is a JSON response with a status and a body, or the event stream (status
  200, \<^verbatim>\<open>text/event-stream\<close>) with its chunks in order. The outcome of a request also
  records the prompts \<^verbatim>\<open>query\<close> was called with.
\<close>

datatype response =
    JsonResponse nat string
  | EventStream "string list"

record outcome =
  response :: response
  queried :: "string list"

definition error_response :: "nat \<Rightarrow> string \<Rightarrow> outcome" where
  "error_response st msg =
     \<lparr>response = JsonResponse st (stringify (JObj [(''error'', JStr msg)])), queried = []\<rparr>"

text \<open>The outer \<^verbatim>\<open>catch\<close> block: every exception thrown before the stream exists.\<close>

definition internal_error :: outcome where
  "internal_error =
     error_response 500 ''Failed to process chat request. Check server logs for details.''"

definition is_user :: "json \<Rightarrow> bool" where
  "is_user m = (property m ''role'' = Some (JStr ''user''))"

definition render_turn :: "json \<Rightarrow> string option" where
  "render_turn m =
     map_option (\<lambda>c. (if is_user m then ''User'' else ''Assistant'') @ '': '' @ c)
       (to_string (property m ''content''))"

definition fullPrompt :: "string \<Rightarrow> string \<Rightarrow> string" where
  "fullPrompt conversationContext lastContent =
     (if conversationContext \<noteq> []
      then SYSTEM_PROMPT @ ''\<newline>\<newline>Previous conversation:\<newline>'' @ conversationContext
             @ ''\<newline>\<newline>User: '' @ lastContent
      else SYSTEM_PROMPT @ ''\<newline>\<newline>User: '' @ lastContent)"

text \<open>
  From the log call that reads \<^verbatim>\<open>lastUserMessage.content.length\<close> to \<^verbatim>\<open>fullPrompt\<close>:
  \<open>None\<close> when one of the steps throws (the content of the last user message is
  \<^verbatim>\<open>undefined\<close> or \<^verbatim>\<open>null\<close>, or a content cannot be converted to a string).
\<close>

definition build_prompt :: "json list \<Rightarrow> json \<Rightarrow> string option" where
  "build_prompt ms lastUserMessage =
     (case property lastUserMessage ''content'' of
        None \<Rightarrow> None
      | Some JNull \<Rightarrow> None
      | Some c \<Rightarrow>
          (case those (map render_turn (butlast ms)) of
             None \<Rightarrow> None
           | Some turns \<Rightarrow>
               map_option (fullPrompt (join ''\<newline>\<newline>'' turns)) (js_string c)))"

text \<open>
  The handler. \<open>query\<close> is the SDK's function, from the prompt to the run it produces;
  the body is the result of \<^verbatim>\<open>request.json()\<close>, \<open>None\<close> when that rejects. Destructuring
  \<^verbatim>\<open>null\<close> throws, and so does the \<^verbatim>\<open>filter\<close> callback on a \<^verbatim>\<open>null\<close> entry.
\<close>

definition POST :: "(string \<Rightarrow> agent_run) \<Rightarrow> json option \<Rightarrow> outcome" where
  "POST query body =
     (case body of
        None \<Rightarrow> internal_error
      | Some JNull \<Rightarrow> internal_error
      | Some b \<Rightarrow>
          (let messages = property b ''messages'' in
           if \<not> truthy messages \<or> \<not> isArray messages
           then error_response 400 ''Messages array is required''
           else if JNull \<in> set (array_items messages) then internal_error
           else (case filter is_user (array_items messages) of
              [] \<Rightarrow> error_response 400 ''No user message found''
            | u # us \<Rightarrow>
                (case build_prompt (array_items messages) (last (u # us)) of
                   None \<Rightarrow> internal_error
                 | Some p \<Rightarrow>
                     \<lparr>response = EventStream (stream_start (query p)), queried = [p]\<rparr>))))"

subsection \<open>Requests\<close>

text \<open>A message of the declared type \<^verbatim>\<open>MessageInput\<close>, and requests made of them.\<close>

definition msg :: "string \<Rightarrow> string \<Rightarrow> json" where
  "msg r c = JObj [(''role'', JStr r), (''content'', JStr c)]"

definition typed_request :: "(string \<times> string) list \<Rightarrow> json" where
  "typed_request turns = JObj [(''messages'', JArr (map (\<lambda>t. msg (fst t) (snd t)) turns))]"

definition turn_line :: "string \<times> string \<Rightarrow> string" where
  "turn_line t = (if fst t = ''user'' then ''User'' else ''Assistant'') @ '': '' @ snd t"

definition hello_request :: json where
  "hello_request = JObj [(''messages'', JArr [msg ''user'' ''Hello''])]"

text \<open>
  The bodies that carry no user message: the field \<^verbatim>\<open>messages\<close> is missing, or is not an
  array, or is an array (possibly empty) of entries other than \<^verbatim>\<open>null\<close> none of which
  has the role \<^verbatim>\<open>user\<close>.
\<close>

definition lacks_user_message :: "json \<Rightarrow> bool" where
  "lacks_user_message b =
     (case property b ''messages'' of
        Some (JArr ms) \<Rightarrow> list_all (\<lambda>m. m \<noteq> JNull \<and> \<not> is_user m) ms
      | _ \<Rightarrow> True)"

section \<open>Chat client (\<^verbatim>\<open>handleSubmit\<close> of the \<^verbatim>\<open>Chat\<close> component): the model\<close>

text \<open>
  The fields \<^verbatim>\<open>id\<close>, \<^verbatim>\<open>role\<close> and \<^verbatim>\<open>content\<close> of a message carry the prefix \<open>msg_\<close>, the
  fields of a tool status the prefix \<open>tool_\<close>. A timestamp is a number.
\<close>

datatype role = User | Assistant

record Message =
  msg_id :: string
  msg_role :: role
  msg_content :: string
  timestamp :: nat

datatype tool_state = Running | Complete

record ToolStatus =
  tool_name :: "json option"
  tool_status :: tool_state
  tool_elapsed :: "json option"

text \<open>
  What the read loop works on: the two pieces of component state it updates
  (\<^verbatim>\<open>messages\<close>, \<^verbatim>\<open>currentTool\<close>) and its two local variables.
\<close>

record chat_state =
  messages :: "Message list"
  currentTool :: "ToolStatus option"
  streamingContent :: string
  toolsUsed :: nat

text \<open>\<^verbatim>\<open>chunk.split('\n')\<close>, \<^verbatim>\<open>line.startsWith('data: ')\<close>.\<close>

fun split :: "char \<Rightarrow> string \<Rightarrow> string list" where
  "split sep [] = [[]]"
| "split sep (c # cs) =
     (if c = sep then [] # split sep cs
      else (case split sep cs of
              [] \<Rightarrow> [[c]]
            | l # ls \<Rightarrow> (c # l) # ls))"

definition startsWith :: "string \<Rightarrow> string \<Rightarrow> bool" where
  "startsWith line p = (take (length p) line = p)"

text \<open>
  The updater \<^verbatim>\<open>prev.map(msg => msg.id === streamingMessageId ? {...msg, content} : msg)\<close>.
\<close>

definition set_content :: "string \<Rightarrow> string \<Rightarrow> Message list \<Rightarrow> Message list" where
  "set_content streamingMessageId c prev =
     map (\<lambda>m. if msg_id m = streamingMessageId then m\<lparr>msg_content := c\<rparr> else m) prev"

definition error_text :: string where
  "error_text = ''Sorry, I encountered an error processing your request.''"

text \<open>
  The chain of tests on \<^verbatim>\<open>parsed.type\<close> inside the \<^verbatim>\<open>try\<close> block; \<open>None\<close> when it
  throws (reading \<^verbatim>\<open>type\<close> of \<^verbatim>\<open>null\<close>, or appending a text that cannot be converted
  to a string), which happens before any update.
\<close>

definition apply_parsed :: "string \<Rightarrow> json \<Rightarrow> chat_state \<Rightarrow> chat_state option" where
  "apply_parsed streamingMessageId parsed st =
     (if parsed = JNull then None
      else if property parsed ''type'' = Some (JStr ''text_delta'') then
        (case to_string (property parsed ''text'') of
           None \<Rightarrow> None
         | Some text \<Rightarrow>
             Some (st\<lparr>streamingContent := streamingContent st @ text,
                      currentTool := None,
                      messages := set_content streamingMessageId (streamingContent st @ text)
                                    (messages st)\<rparr>))
      else if property parsed ''type'' = Some (JStr ''tool_start'') then
        Some (st\<lparr>toolsUsed := toolsUsed st + 1,
                 currentTool := Some \<lparr>tool_name = property parsed ''tool'',
                                       tool_status = Running, tool_elapsed = None\<rparr>\<rparr>)
      else if property parsed ''type'' = Some (JStr ''tool_progress'') then
        Some (st\<lparr>currentTool :=
                   map_option (\<lambda>prev. prev\<lparr>tool_elapsed := property parsed ''elapsed''\<rparr>)
                     (currentTool st)\<rparr>)
      else if property parsed ''type'' = Some (JStr ''done'') then
        Some (st\<lparr>currentTool := None\<rparr>)
      else if property parsed ''type'' = Some (JStr ''error'') then
        Some (st\<lparr>streamingContent := error_text,
                 messages := set_content streamingMessageId error_text (messages st),
                 currentTool := None\<rparr>)
      else Some st)"

text \<open>
  One line of a chunk. \<open>parse\<close> is \<^verbatim>\<open>JSON.parse\<close>, a function of the platform taken as
  a parameter: \<open>None\<close> is a thrown SyntaxError. The \<^verbatim>\<open>catch\<close> block is empty, so
  whatever throws inside the \<^verbatim>\<open>try\<close> block leaves the state as it was.
\<close>

definition process_line ::
  "(string \<Rightarrow> json option) \<Rightarrow> string \<Rightarrow> string \<Rightarrow> chat_state \<Rightarrow> chat_state" where
  "process_line parse streamingMessageId line st =
     (if startsWith line ''data: '' then
        (let data = drop 6 line in
         if data = ''[DONE]'' then st
         else (case parse data of
                 None \<Rightarrow> st
               | Some parsed \<Rightarrow>
                   (case apply_parsed streamingMessageId parsed st of
                      None \<Rightarrow> st
                    | Some st' \<Rightarrow> st')))
      else st)"

text \<open>The \<^verbatim>\<open>for\<close> loop over the lines of a chunk, and the \<^verbatim>\<open>while\<close> loop over the chunks.\<close>

fun process_lines ::
  "(string \<Rightarrow> json option) \<Rightarrow> string \<Rightarrow> string list \<Rightarrow> chat_state \<Rightarrow> chat_state" where
  "process_lines parse sid [] st = st"
| "process_lines parse sid (line # lines) st =
     process_lines parse sid lines (process_line parse sid line st)"

fun read_loop ::
  "(string \<Rightarrow> json option) \<Rightarrow> string \<Rightarrow> string list \<Rightarrow> chat_state \<Rightarrow> chat_state" where
  "read_loop parse sid [] st = st"
| "read_loop parse sid (chunk # chunks) st =
     read_loop parse sid chunks (process_lines parse sid (split CHR 0x0A chunk) st)"




text \<open>The identifiers \<^verbatim>\<open>crypto.randomUUID()\<close> returns and the dates of the new messages.\<close>

record submit_env =
  streamingMessageId :: string
  streamingTimestamp :: nat
  errorMessageId :: string
  errorTimestamp :: nat


definition placeholder :: "submit_env \<Rightarrow> Message" where
  "placeholder env =
     \<lparr>msg_id = streamingMessageId env, msg_role = Assistant, msg_content = [],
      timestamp = streamingTimestamp env\<rparr>"


subsection \<open>Lines that change the streamed text\<close>





subsection \<open>A concrete exchange\<close>

text \<open>
  \<^verbatim>\<open>JSON.parse\<close> on the payloads the relay emits in the examples below: each of them is
  parsed to the event it was serialised from; everything else the examples feed it (a
  payload cut short) is not valid JSON.
\<close>

definition example_parse :: "string \<Rightarrow> json option" where
  "example_parse =
     map_of (map (\<lambda>ev. (stringify ev, ev))
       [text_delta_event ''Hi'', tool_start_event ''WebSearch'', done_event,
        error_event ''Query did not complete successfully'',
        error_event ''Stream error occurred''])"

definition example_env :: submit_env where
  "example_env = \<lparr>streamingMessageId = ''m-2'', streamingTimestamp = 2,
                   errorMessageId = ''m-3'', errorTimestamp = 3\<rparr>"

definition example_messages :: "Message list" where
  "example_messages =
     [\<lparr>msg_id = ''welcome'', msg_role = Assistant,
       msg_content = ''Hello! I'm the SentryOS AI Assistant. How can I help you today?'',
       timestamp = 0\<rparr>,
      \<lparr>msg_id = ''m-1'', msg_role = User, msg_content = ''Hello'', timestamp = 1\<rparr>]"

definition example_state :: chat_state where
  "example_state =
     \<lparr>messages = example_messages @ [placeholder example_env], currentTool = None,
      streamingContent = [], toolsUsed = 0\<rparr>"

text \<open>
  Three chunks as the network may deliver them: a tool start, the beginning of a text
  delta cut short, and the remainder of it followed by the completion event.
\<close>

definition chunk_tool :: string where
  "chunk_tool = ''data: {\"type\":\"tool_start\",\"tool\":\"WebSearch\"}\<newline>\<newline>''"

definition chunk_cut :: string where
  "chunk_cut = ''data: {\"type\":\"text_del''"

definition chunk_rest :: string where
  "chunk_rest = ''ta\",\"text\":\"Hi\"}\<newline>\<newline>data: {\"type\":\"done\"}\<newline>\<newline>''"

section \<open>Window manager: properties\<close>

subsection \<open>Identifiers\<close>

text \<open>
  No operation changes the identifier of a window, and \<open>openWindow\<close> appends a window only
  when its identifier is not in the registry yet: identifiers stay pairwise distinct.
\<close>

lemma find_Some_mem: "find P xs = Some x \<Longrightarrow> x \<in> set xs \<and> P x"
  by (induction xs) (auto split: if_splits)

lemma filter_id_le_one:
  "distinct (map win_id ws) \<Longrightarrow> length (filter (\<lambda>w. win_id w = i) ws) \<le> Suc 0"
  by (induction ws) (auto simp: filter_empty_conv image_iff)

lemma ids_apply_op_existing:
  "map win_id (windows (closeWindow i s)) = filter (\<lambda>j. j \<noteq> i) (map win_id (windows s))"
  "map win_id (windows (minimizeWindow i s)) = map win_id (windows s)"
  "map win_id (windows (maximizeWindow i s)) = map win_id (windows s)"
  "map win_id (windows (restoreWindow i s)) = map win_id (windows s)"
  "map win_id (windows (focusWindow i s)) = map win_id (windows s)"
  "map win_id (windows (updateWindowPosition i x y s)) = map win_id (windows s)"
  "map win_id (windows (updateWindowSize i x y s)) = map win_id (windows s)"
  by (simp_all add: closeWindow_def minimizeWindow_def maximizeWindow_def restoreWindow_def
      focusWindow_def updateWindowPosition_def updateWindowSize_def filter_map o_def Let_def)

lemma ids_openWindow:
  "map win_id (windows (openWindow w s)) =
     (if win_id w \<in> set (map win_id (windows s)) then map win_id (windows s)
      else map win_id (windows s) @ [win_id w])"
  by (auto simp: openWindow_def Let_def o_def find_None_iff split: option.splits
      dest!: find_Some_mem intro: rev_image_eqI)

lemma ids_distinct_apply_op: "ids_distinct s \<Longrightarrow> ids_distinct (apply_op opn s)"
  by (cases opn) (auto simp: ids_distinct_def ids_apply_op_existing ids_openWindow distinct_map_filter)

subsection \<open>Focus\<close>

text \<open>
  The operations that focus a window (\<open>openWindow\<close> on an identifier that exists,
  \<open>restoreWindow\<close>, \<open>focusWindow\<close>) leave exactly the windows with that identifier
  focused; the others never focus a window.
\<close>

lemma count_focused_map:
  assumes "\<And>w. isFocused (g w) = (win_id w = i)"
  shows "length (filter isFocused (map g ws)) = length (filter (\<lambda>w. win_id w = i) ws)"
  by (induction ws) (simp_all add: assms)

lemma count_focused_map_le:
  assumes "\<And>w. isFocused (g w) \<Longrightarrow> isFocused w"
  shows "length (filter isFocused (map g ws)) \<le> length (filter isFocused ws)"
proof (induction ws)
  case Nil
  show ?case by simp
next
  case (Cons w ws)
  then show ?case using assms [of w] by (cases "isFocused (g w)") simp_all
qed

lemma focused_after_unfocus_all:
  "filter isFocused (map (\<lambda>w. w\<lparr>isFocused := False\<rparr>) ws) = []"
  by (induction ws) auto

lemma focused_count_refocus:
  "focused_count (focusWindow i s) = length (filter (\<lambda>w. win_id w = i) (windows s))"
  "focused_count (restoreWindow i s) = length (filter (\<lambda>w. win_id w = i) (windows s))"
  unfolding focused_count_def focusWindow_def restoreWindow_def Let_def wm_state.select_convs
  by (rule count_focused_map, simp)+

lemma focused_count_open_existing:
  assumes "find (\<lambda>v. win_id v = win_id w) (windows s) = Some e"
  shows "focused_count (openWindow w s) = length (filter (\<lambda>v. win_id v = win_id w) (windows s))"
proof (cases "isMinimized e")
  case True
  show ?thesis
    unfolding focused_count_def openWindow_def Let_def wm_state.select_convs assms option.case
      if_P [OF True]
    by (rule count_focused_map) simp
next
  case False
  show ?thesis
    unfolding focused_count_def openWindow_def Let_def wm_state.select_convs assms option.case
      if_not_P [OF False]
    by (rule count_focused_map) simp
qed

lemma focused_count_not_raised:
  "focused_count (closeWindow i s) \<le> focused_count s"
  "focused_count (minimizeWindow i s) \<le> focused_count s"
  "focused_count (maximizeWindow i s) \<le> focused_count s"
  "focused_count (updateWindowPosition i x y s) \<le> focused_count s"
  "focused_count (updateWindowSize i x y s) \<le> focused_count s"
proof -
  have "length (filter isFocused (filter (\<lambda>w. win_id w \<noteq> i) ws))
        \<le> length (filter isFocused ws)" for ws :: "('a, 'b) WindowState list"
    by (induction ws) (simp_all add: le_SucI)
  then show "focused_count (closeWindow i s) \<le> focused_count s"
    by (simp add: focused_count_def closeWindow_def)
  have le: "length (filter isFocused (map (\<lambda>w. if win_id w = i then g w else w) ws))
        \<le> length (filter isFocused ws)"
    if "\<And>w. isFocused (g w) \<Longrightarrow> isFocused w"
    for ws :: "('a, 'b) WindowState list" and g
    by (rule count_focused_map_le) (simp add: that split: if_splits)
  show "focused_count (minimizeWindow i s) \<le> focused_count s"
    using le [of "\<lambda>w. w\<lparr>isMinimized := True, isFocused := False\<rparr>" "windows s"]
    by (simp add: focused_count_def minimizeWindow_def)
  show "focused_count (maximizeWindow i s) \<le> focused_count s"
    using le [of "\<lambda>w. w\<lparr>isMaximized := \<not> isMaximized w\<rparr>" "windows s"]
    by (simp add: focused_count_def maximizeWindow_def)
  show "focused_count (updateWindowPosition i x y s) \<le> focused_count s"
    using le [of "\<lambda>w. w\<lparr>win_x := x, win_y := y\<rparr>" "windows s"]
    by (simp add: focused_count_def updateWindowPosition_def)
  show "focused_count (updateWindowSize i x y s) \<le> focused_count s"
    using le [of "\<lambda>w. w\<lparr>width := x, height := y\<rparr>" "windows s"]
    by (simp add: focused_count_def updateWindowSize_def)
qed

lemma focused_count_apply_op:
  assumes "ids_distinct s" "focused_count s \<le> Suc 0"
  shows "focused_count (apply_op opn s) \<le> Suc 0"
proof -
  have one: "length (filter (\<lambda>v. win_id v = i) (windows s)) \<le> Suc 0" for i
    using assms(1) filter_id_le_one [of "windows s" i] by (simp add: ids_distinct_def)
  show ?thesis
  proof (cases opn)
    case (Open w)
    show ?thesis
    proof (cases "find (\<lambda>v. win_id v = win_id w) (windows s)")
      case None
      then show ?thesis
        using Open by (simp add: focused_count_def openWindow_def Let_def focused_after_unfocus_all)
    next
      case (Some e)
      then show ?thesis
        using Open one [of "win_id w"] by (simp add: focused_count_open_existing)
    qed
  next
    case (Close i)
    then show ?thesis
      using assms(2) focused_count_not_raised(1) [of i s] by simp
  next
    case (Minimize i)
    then show ?thesis
      using assms(2) focused_count_not_raised(2) [of i s] by simp
  next
    case (Maximize i)
    then show ?thesis
      using assms(2) focused_count_not_raised(3) [of i s] by simp
  next
    case (Restore i)
    then show ?thesis
      using one [of i] by (simp add: focused_count_refocus)
  next
    case (Focus i)
    then show ?thesis
      using one [of i] by (simp add: focused_count_refocus)
  next
    case (Move i x y)
    then show ?thesis
      using assms(2) focused_count_not_raised(4) [of i x y s] by simp
  next
    case (Resize i x y)
    then show ?thesis
      using assms(2) focused_count_not_raised(5) [of i x y s] by simp
  qed
qed

lemma run_ops_keeps_focus_invariant:
  "ids_distinct s \<Longrightarrow> focused_count s \<le> Suc 0 \<Longrightarrow>
   ids_distinct (run_ops ops s) \<and> focused_count (run_ops ops s) \<le> Suc 0"
proof (induction ops arbitrary: s)
  case Nil
  then show ?case by simp
next
  case (Cons opn ops)
  have "ids_distinct (apply_op opn s)" "focused_count (apply_op opn s) \<le> Suc 0"
    using Cons.prems by (simp_all add: ids_distinct_apply_op focused_count_apply_op)
  then show ?case
    using Cons.IH [of "apply_op opn s"] by simp
qed

text \<open>
  C1. At most one window is focused after each operation of a sequence. The registry is
  private state of the provider: it starts empty and changes only through the eight
  operations, so its identifiers are pairwise distinct and at most one of its windows is
  focused when a sequence of operations starts. From every such registry, after every
  prefix \<open>take k ops\<close> of every sequence \<open>ops\<close>, at most one window is focused.
\<close>

theorem C1_at_most_one_focused:
  assumes "ids_distinct s" and "focused_count s \<le> 1"
  shows "focused_count (run_ops (take k ops) s) \<le> 1"
  using assms run_ops_keeps_focus_invariant [of s "take k ops"] by simp

text \<open>
  The theorem at the initial state, after the first three of five operations: two
  windows are open, and only the chat window is focused.
\<close>

theorem C1_witness:
  "ids_distinct (initial_state :: (int, unit) wm_state)
   \<and> focused_count (initial_state :: (int, unit) wm_state) \<le> 1
   \<and> focused_count (run_ops (take 3 [Open chat_window, Open folder_window, Focus ''chat'',
          Minimize ''chat'', Close ''agents-folder'']) initial_state) \<le> 1
   \<and> map isFocused (windows (run_ops (take 3 [Open chat_window, Open folder_window,
          Focus ''chat'', Minimize ''chat'', Close ''agents-folder'']) initial_state))
       = [True, False]"
  using C1_at_most_one_focused [of "initial_state :: (int, unit) wm_state" 3
      "[Open chat_window, Open folder_window, Focus ''chat'',
          Minimize ''chat'', Close ''agents-folder'']"]
  by (simp add: initial_state_def ids_distinct_def focused_count_def openWindow_def
      focusWindow_def chat_window_def folder_window_def)

subsection \<open>Unknown identifiers\<close>

lemma absent_map_cong:
  assumes "\<not> has_id i s"
  shows "map (\<lambda>w. if win_id w = i then g w else h w) (windows s) = map h (windows s)"
  using assms by (auto simp: has_id_def)

text \<open>
  C2. An operation on an identifier that is not in the registry. \<open>closeWindow\<close>,
  \<open>minimizeWindow\<close>, \<open>maximizeWindow\<close>, \<open>updateWindowPosition\<close> and \<open>updateWindowSize\<close> leave
  the whole state unchanged. \<open>restoreWindow\<close> and \<open>focusWindow\<close> do not: they have no test
  for the identifier, so they take the focus from every window and advance the stacking
  counter by one; everything else (the windows, their order, geometry, minimized and
  maximized flags and stacking indices) stays as it was.
\<close>

theorem C2_unknown_id:
  assumes "\<not> has_id i s"
  shows "closeWindow i s = s
    \<and> minimizeWindow i s = s
    \<and> maximizeWindow i s = s
    \<and> updateWindowPosition i x y s = s
    \<and> updateWindowSize i wd ht s = s
    \<and> restoreWindow i s =
        \<lparr>windows = map (\<lambda>w. w\<lparr>isFocused := False\<rparr>) (windows s), topZIndex = topZIndex s + 1\<rparr>
    \<and> focusWindow i s =
        \<lparr>windows = map (\<lambda>w. w\<lparr>isFocused := False\<rparr>) (windows s), topZIndex = topZIndex s + 1\<rparr>"
proof -
  have "filter (\<lambda>w. win_id w \<noteq> i) (windows s) = windows s"
    using assms by (auto simp: has_id_def filter_id_conv)
  then have "closeWindow i s = s"
    by (simp add: closeWindow_def)
  moreover have "minimizeWindow i s = s" "maximizeWindow i s = s"
    "updateWindowPosition i x y s = s" "updateWindowSize i wd ht s = s"
    using absent_map_cong [OF assms, of _ "\<lambda>w. w"]
    by (simp_all add: minimizeWindow_def maximizeWindow_def updateWindowPosition_def
        updateWindowSize_def)
  moreover have "restoreWindow i s =
        \<lparr>windows = map (\<lambda>w. w\<lparr>isFocused := False\<rparr>) (windows s), topZIndex = topZIndex s + 1\<rparr>"
    "focusWindow i s =
        \<lparr>windows = map (\<lambda>w. w\<lparr>isFocused := False\<rparr>) (windows s), topZIndex = topZIndex s + 1\<rparr>"
    by (simp_all add: restoreWindow_def focusWindow_def Let_def absent_map_cong [OF assms])
  ultimately show ?thesis by simp
qed

text \<open>
  The theorem on the desktop with the chat window open, for the identifier of the
  folder window.
\<close>

theorem C2_witness:
  "\<not> has_id ''agents-folder'' chat_open
   \<and> closeWindow ''agents-folder'' chat_open = chat_open
   \<and> minimizeWindow ''agents-folder'' chat_open = chat_open
   \<and> maximizeWindow ''agents-folder'' chat_open = chat_open
   \<and> updateWindowPosition ''agents-folder'' 10 20 chat_open = chat_open
   \<and> updateWindowSize ''agents-folder'' 300 200 chat_open = chat_open
   \<and> restoreWindow ''agents-folder'' chat_open =
        \<lparr>windows = map (\<lambda>w. w\<lparr>isFocused := False\<rparr>) (windows chat_open),
         topZIndex = topZIndex chat_open + 1\<rparr>
   \<and> focusWindow ''agents-folder'' chat_open =
        \<lparr>windows = map (\<lambda>w. w\<lparr>isFocused := False\<rparr>) (windows chat_open),
         topZIndex = topZIndex chat_open + 1\<rparr>"
proof -
  have absent: "\<not> has_id ''agents-folder'' chat_open"
    by (simp add: has_id_def chat_open_def openWindow_def initial_state_def chat_window_def)
  show ?thesis
    using absent C2_unknown_id [OF absent, of 10 20 300 200] by simp
qed

text \<open>
  On the same state, \<open>focusWindow\<close> with the unknown identifier is not a no-op: the chat
  window loses the focus and the counter goes from 101 to 102.
\<close>

theorem C2_counterexample:
  "\<not> has_id ''agents-folder'' chat_open
   \<and> map isFocused (windows chat_open) = [True]
   \<and> topZIndex chat_open = 101
   \<and> map isFocused (windows (focusWindow ''agents-folder'' chat_open)) = [False]
   \<and> topZIndex (focusWindow ''agents-folder'' chat_open) = 102
   \<and> focusWindow ''agents-folder'' chat_open \<noteq> chat_open"
proof -
  have "topZIndex (focusWindow ''agents-folder'' chat_open) \<noteq> topZIndex chat_open"
    by (simp add: focusWindow_def Let_def)
  then have "focusWindow ''agents-folder'' chat_open \<noteq> chat_open"
    by auto
  then show ?thesis
    by (simp add: has_id_def chat_open_def openWindow_def initial_state_def chat_window_def
        focusWindow_def)
qed

subsection \<open>Stacking\<close>

lemma z_after_refocus:
  assumes "\<And>w. zIndex (g w) = (if win_id w = i then t + 1 else zIndex w)"
  shows "map zIndex (map g ws) = map (\<lambda>w. if win_id w = i then t + 1 else zIndex w) ws"
  by (simp add: assms)

lemma z_distinct_refocus_list:
  assumes "distinct (map win_id ws)" "distinct (map zIndex ws)"
    and "list_all (\<lambda>w. zIndex w \<le> t) ws"
  shows "distinct (map (\<lambda>w. if win_id w = i then t + 1 else zIndex w) ws)"
  using assms
proof (induction ws)
  case Nil
  show ?case by simp
next
  case (Cons w ws)
  have rest: "distinct (map (\<lambda>w. if win_id w = i then t + 1 else zIndex w) ws)"
    using Cons by simp
  have "(if win_id w = i then t + 1 else zIndex w)
        \<notin> (\<lambda>w. if win_id w = i then t + 1 else zIndex w) ` set ws"
  proof
    assume "(if win_id w = i then t + 1 else zIndex w)
        \<in> (\<lambda>w. if win_id w = i then t + 1 else zIndex w) ` set ws"
    then obtain v where v: "v \<in> set ws"
      and eq: "(if win_id w = i then t + 1 else zIndex w)
               = (if win_id v = i then t + 1 else zIndex v)"
      by auto
    have "win_id v \<noteq> win_id w"
      using Cons.prems(1) v by (auto simp: image_iff)
    moreover have "zIndex v \<noteq> zIndex w"
      using Cons.prems(2) v by (auto simp: image_iff)
    moreover have "zIndex v \<le> t" "zIndex w \<le> t"
      using Cons.prems(3) v by (simp_all add: list_all_iff)
    ultimately show False
      using eq by (auto split: if_splits)
  qed
  with rest show ?case by simp
qed

lemma z_bounded_apply_op: "z_bounded s \<Longrightarrow> z_bounded (apply_op opn s)"
proof (cases opn)
  case (Open w)
  assume "z_bounded s"
  then show ?thesis
    using Open
    by (auto simp: z_bounded_def openWindow_def Let_def list_all_iff split: option.splits)
next
  case (Close i)
  assume "z_bounded s"
  then show ?thesis using Close by (auto simp: z_bounded_def closeWindow_def list_all_iff)
next
  case (Minimize i)
  assume "z_bounded s"
  then show ?thesis using Minimize by (auto simp: z_bounded_def minimizeWindow_def list_all_iff)
next
  case (Maximize i)
  assume "z_bounded s"
  then show ?thesis using Maximize by (auto simp: z_bounded_def maximizeWindow_def list_all_iff)
next
  case (Restore i)
  assume "z_bounded s"
  then show ?thesis
    using Restore by (auto simp: z_bounded_def restoreWindow_def Let_def list_all_iff)
next
  case (Focus i)
  assume "z_bounded s"
  then show ?thesis
    using Focus by (auto simp: z_bounded_def focusWindow_def Let_def list_all_iff)
next
  case (Move i x y)
  assume "z_bounded s"
  then show ?thesis
    using Move by (auto simp: z_bounded_def updateWindowPosition_def list_all_iff)
next
  case (Resize i x y)
  assume "z_bounded s"
  then show ?thesis
    using Resize by (auto simp: z_bounded_def updateWindowSize_def list_all_iff)
qed

lemma z_distinct_apply_op:
  assumes "ids_distinct s" "z_bounded s" "z_distinct s"
  shows "z_distinct (apply_op opn s)"
proof -
  have refocus: "distinct (map zIndex (map g (windows s)))"
    if "\<And>w. zIndex (g w) = (if win_id w = i then topZIndex s + 1 else zIndex w)"
    for g :: "('a, 'b) WindowState \<Rightarrow> ('a, 'b) WindowState" and i
  proof -
    have "distinct (map (\<lambda>w. if win_id w = i then topZIndex s + 1 else zIndex w) (windows s))"
      using assms
      by (intro z_distinct_refocus_list) (simp_all add: ids_distinct_def z_bounded_def z_distinct_def)
    then show ?thesis
      unfolding z_after_refocus [of g, OF that] .
  qed
  have same: "distinct (map zIndex (map g (windows s)))"
    if "\<And>w. zIndex (g w) = zIndex w"
    for g :: "('a, 'b) WindowState \<Rightarrow> ('a, 'b) WindowState"
  proof -
    have "map zIndex (map g (windows s)) = map zIndex (windows s)"
      by (simp add: that)
    then show ?thesis using assms(3) by (simp only: z_distinct_def)
  qed
  show ?thesis
  proof (cases opn)
    case (Open w)
    show ?thesis
    proof (cases "find (\<lambda>v. win_id v = win_id w) (windows s)")
      case None
      have "map zIndex (map (\<lambda>w. w\<lparr>isFocused := False\<rparr>) (windows s)) = map zIndex (windows s)"
        by simp
      moreover have "topZIndex s + 1 \<notin> zIndex ` set (windows s)"
        using assms(2) by (auto simp: z_bounded_def list_all_iff)
      ultimately show ?thesis
        using Open None assms(3)
        by (simp add: z_distinct_def openWindow_def Let_def del: map_map)
    next
      case (Some e)
      show ?thesis
      proof (cases "isMinimized e")
        case True
        show ?thesis
          unfolding Open apply_op.simps z_distinct_def openWindow_def Let_def
            wm_state.select_convs Some option.case if_P [OF True]
          by (rule refocus [of _ "win_id w"]) simp
      next
        case False
        show ?thesis
          unfolding Open apply_op.simps z_distinct_def openWindow_def Let_def
            wm_state.select_convs Some option.case if_not_P [OF False]
          by (rule refocus [of _ "win_id w"]) simp
      qed
    qed
  next
    case (Close i)
    then show ?thesis
      using assms(3) by (simp add: z_distinct_def closeWindow_def distinct_map_filter)
  next
    case (Minimize i)
    show ?thesis
      using same [of "\<lambda>w. if win_id w = i then w\<lparr>isMinimized := True, isFocused := False\<rparr> else w"]
      by (simp add: Minimize z_distinct_def minimizeWindow_def)
  next
    case (Maximize i)
    show ?thesis
      using same [of "\<lambda>w. if win_id w = i then w\<lparr>isMaximized := \<not> isMaximized w\<rparr> else w"]
      by (simp add: Maximize z_distinct_def maximizeWindow_def)
  next
    case (Restore i)
    show ?thesis
      unfolding Restore apply_op.simps z_distinct_def restoreWindow_def Let_def
        wm_state.select_convs
      by (rule refocus [of _ i]) simp
  next
    case (Focus i)
    show ?thesis
      unfolding Focus apply_op.simps z_distinct_def focusWindow_def Let_def
        wm_state.select_convs
      by (rule refocus [of _ i]) simp
  next
    case (Move i x y)
    show ?thesis
      using same [of "\<lambda>w. if win_id w = i then w\<lparr>win_x := x, win_y := y\<rparr> else w"]
      by (simp add: Move z_distinct_def updateWindowPosition_def)
  next
    case (Resize i x y)
    show ?thesis
      using same [of "\<lambda>w. if win_id w = i then w\<lparr>width := x, height := y\<rparr> else w"]
      by (simp add: Resize z_distinct_def updateWindowSize_def)
  qed
qed

lemma run_ops_keeps_stacking_invariant:
  "ids_distinct s \<Longrightarrow> z_bounded s \<Longrightarrow> z_distinct s \<Longrightarrow>
   ids_distinct (run_ops ops s) \<and> z_bounded (run_ops ops s) \<and> z_distinct (run_ops ops s)"
proof (induction ops arbitrary: s)
  case Nil
  then show ?case by simp
next
  case (Cons opn ops)
  have "ids_distinct (apply_op opn s)" "z_bounded (apply_op opn s)" "z_distinct (apply_op opn s)"
    using Cons.prems by (simp_all add: ids_distinct_apply_op z_bounded_apply_op z_distinct_apply_op)
  then show ?case
    using Cons.IH [of "apply_op opn s"] by simp
qed

text \<open>
  Re-opening a window in a state in which no stacking index exceeds the counter: the
  geometry of every window is what it was, and the re-opened window gets the counter
  plus one as its index, above all the others.
\<close>

lemma reopen_when_bounded:
  assumes "z_bounded s"
    and "\<exists>e \<in> set (windows s). win_id e = win_id window \<and> \<not> isMinimized e"
  shows "map geometry (windows (openWindow window s)) = map geometry (windows s)
    \<and> has_id (win_id window) (openWindow window s)
    \<and> list_all (\<lambda>w. if win_id w = win_id window then zIndex w = topZIndex s + 1
                      else zIndex w < topZIndex s + 1) (windows (openWindow window s))"
proof -
  from assms(2) obtain e where e: "find (\<lambda>w. win_id w = win_id window) (windows s) = Some e"
    by (cases "find (\<lambda>w. win_id w = win_id window) (windows s)") (auto simp: find_None_iff)
  have present: "has_id (win_id window) s"
    using assms(2) by (auto simp: has_id_def intro: rev_image_eqI)
  have below: "\<forall>w \<in> set (windows s). zIndex w < topZIndex s + 1"
    using assms(1) by (auto simp: z_bounded_def list_all_iff)
  have geo: "map geometry (windows (openWindow window s)) = map geometry (windows s)"
    using e by (simp add: openWindow_def Let_def geometry_def)
  have "map win_id (windows (openWindow window s)) = map win_id (windows s)"
    using present by (simp add: ids_openWindow has_id_def)
  then have still: "has_id (win_id window) (openWindow window s)"
    using present by (simp add: has_id_def)
  have top: "list_all (\<lambda>w. if win_id w = win_id window then zIndex w = topZIndex s + 1
                      else zIndex w < topZIndex s + 1) (windows (openWindow window s))"
    using e below by (auto simp: openWindow_def Let_def list_all_iff)
  from geo still top show ?thesis by simp
qed

text \<open>
  C7. Re-opening a window that is in the registry and not minimized. The registry is any
  one the window manager can hold: the state \<open>s\<close> after any sequence of operations
  from the empty registry (whatever counter it starts with, 100 in the provider). The
  geometry of every window (so also of the re-opened one) is what it was, the window is
  still there, its stacking index is the counter plus one, and the index of every window
  with another identifier is strictly below that.
\<close>

theorem C7_reopen_keeps_geometry_and_raises:
  assumes "s = run_ops ops \<lparr>windows = [], topZIndex = t\<rparr>"
    and "\<exists>e \<in> set (windows s). win_id e = win_id window \<and> \<not> isMinimized e"
  shows "map geometry (windows (openWindow window s)) = map geometry (windows s)
    \<and> has_id (win_id window) (openWindow window s)
    \<and> list_all (\<lambda>w. if win_id w = win_id window then zIndex w = topZIndex s + 1
                      else zIndex w < topZIndex s + 1) (windows (openWindow window s))"
proof -
  have "z_bounded s"
    using assms(1) run_ops_keeps_stacking_invariant [of "\<lparr>windows = [], topZIndex = t\<rparr>" ops]
    by (simp add: ids_distinct_def z_bounded_def z_distinct_def)
  then show ?thesis
    using assms(2) by (rule reopen_when_bounded)
qed

text \<open>
  The theorem with two windows open, the folder window on top (index 102) of the chat
  window (index 101): the chat window, opened again, keeps its geometry and gets the
  index 103, above the folder window.
\<close>

theorem C7_witness:
  "both_open = run_ops [Open chat_window, Open folder_window] \<lparr>windows = [], topZIndex = 100\<rparr>
   \<and> (\<exists>e \<in> set (windows both_open). win_id e = win_id chat_window \<and> \<not> isMinimized e)
   \<and> map win_id (windows both_open) = [''chat'', ''agents-folder'']
   \<and> map zIndex (windows both_open) = [101, 102]
   \<and> map geometry (windows (openWindow chat_window both_open))
       = map geometry (windows both_open)
   \<and> has_id (win_id chat_window) (openWindow chat_window both_open)
   \<and> list_all (\<lambda>w. if win_id w = win_id chat_window then zIndex w = topZIndex both_open + 1
                      else zIndex w < topZIndex both_open + 1)
        (windows (openWindow chat_window both_open))
   \<and> map zIndex (windows (openWindow chat_window both_open)) = [103, 102]"
proof -
  have h1: "both_open = run_ops [Open chat_window, Open folder_window]
                \<lparr>windows = [], topZIndex = 100\<rparr>"
    by (simp add: both_open_def initial_state_def)
  have h2: "\<exists>e \<in> set (windows both_open). win_id e = win_id chat_window \<and> \<not> isMinimized e"
    by (simp add: both_open_def initial_state_def openWindow_def chat_window_def
        folder_window_def)
  have vals: "map win_id (windows both_open) = [''chat'', ''agents-folder'']"
    "map zIndex (windows both_open) = [101, 102]"
    "map zIndex (windows (openWindow chat_window both_open)) = [103, 102]"
    by (simp_all add: both_open_def initial_state_def openWindow_def chat_window_def
        folder_window_def)
  show ?thesis
    using h1 h2 vals C7_reopen_keeps_geometry_and_raises [OF h1 h2] by simp
qed

text \<open>
  C10. Starting from the empty registry (whatever the counter is, 100 in the provider),
  after every sequence of operations the stacking indices of the windows are pairwise
  distinct and none exceeds the counter.
\<close>

theorem C10_stacking_indices_distinct_and_bounded:
  "z_distinct (run_ops ops \<lparr>windows = [], topZIndex = t\<rparr>)
   \<and> z_bounded (run_ops ops \<lparr>windows = [], topZIndex = t\<rparr>)"
  using run_ops_keeps_stacking_invariant [of "\<lparr>windows = [], topZIndex = t\<rparr>" ops]
  by (simp add: ids_distinct_def z_bounded_def z_distinct_def)

text \<open>
  The theorem for six operations from the initial state; the two windows end with the
  indices 104 and 105, under a counter of 105.
\<close>

theorem C10_witness:
  "z_distinct (run_ops [Open chat_window, Open folder_window, Focus ''chat'',
        Minimize ''chat'', Restore ''chat'', Open folder_window] initial_state)
   \<and> z_bounded (run_ops [Open chat_window, Open folder_window, Focus ''chat'',
        Minimize ''chat'', Restore ''chat'', Open folder_window] initial_state)
   \<and> map zIndex (windows (run_ops [Open chat_window, Open folder_window, Focus ''chat'',
        Minimize ''chat'', Restore ''chat'', Open folder_window] initial_state)) = [104, 105]"
  using C10_stacking_indices_distinct_and_bounded [of "[Open chat_window, Open folder_window,
        Focus ''chat'', Minimize ''chat'', Restore ''chat'', Open folder_window]" 100]
  by (simp add: initial_state_def openWindow_def focusWindow_def minimizeWindow_def
      restoreWindow_def chat_window_def folder_window_def)

subsection \<open>Closing\<close>

text \<open>
  C8. For every state and every identifier, \<open>closeWindow\<close> yields a registry in which no
  window has that identifier and in which the windows with another identifier are the
  ones before, unchanged and in the same order; the stacking counter is untouched, and
  closing the same identifier a second time changes nothing more.
\<close>

theorem C8_close_removes_and_is_idempotent:
  "\<not> has_id i (closeWindow i s)
   \<and> windows (closeWindow i s) = filter (\<lambda>w. win_id w \<noteq> i) (windows s)
   \<and> filter (\<lambda>w. win_id w \<noteq> i) (windows (closeWindow i s))
       = filter (\<lambda>w. win_id w \<noteq> i) (windows s)
   \<and> topZIndex (closeWindow i s) = topZIndex s
   \<and> closeWindow i (closeWindow i s) = closeWindow i s"
  by (auto simp: closeWindow_def has_id_def)

section \<open>Chat relay endpoint: properties\<close>

subsection \<open>The end of the event stream\<close>

text \<open>
  When the iteration over the agent's messages completes, the last chunk of the stream is
  the sentinel. When it throws, the last chunk is an error event, and a serialised object
  is never the sentinel.
\<close>

lemma stream_start_completes_ends_with_sentinel:
  "last (stream_start (AgentRun ms Completes)) = done_line"
  by simp

lemma sse_data_not_sentinel: "sse_data (JObj kvs) \<noteq> done_line"
  by (simp add: sse_data_def done_line_def)

lemma stream_start_throws_ends_with_error:
  "last (stream_start (AgentRun ms Throws)) = sse_data (error_event ''Stream error occurred'')
   \<and> last (stream_start (AgentRun ms Throws)) \<noteq> done_line"
  by (simp add: error_event_def sse_data_not_sentinel)

text \<open>
  C3. Every stream of an accepted request is said to end with the line
  \<^verbatim>\<open>data: [DONE]\<close>, also when an exception is thrown while streaming. The handler
  enqueues the sentinel on the path where the iteration completes, and after the error
  event of a result that is not a success; its \<^verbatim>\<open>catch\<close> block enqueues an error
  event and closes the stream without it. For the request with the single user message
  \<^verbatim>\<open>Hello\<close> and an agent call that throws before it yields anything, the response is
  the event stream whose only chunk is that error event: the sentinel is not in it.
\<close>

theorem C3_thrown_exception_ends_without_sentinel:
  "response (POST (\<lambda>p. AgentRun [] Throws) (Some hello_request))
     = EventStream [''data: {\"type\":\"error\",\"message\":\"Stream error occurred\"}\<newline>\<newline>'']
   \<and> done_line \<notin> set [''data: {\"type\":\"error\",\"message\":\"Stream error occurred\"}\<newline>\<newline>'']"
  by (simp add: POST_def hello_request_def msg_def is_user_def build_prompt_def
      sse_data_def error_event_def quote_def escape_char_def done_line_def)

text \<open>
  The request passes both validation tests of the handler (its \<^verbatim>\<open>messages\<close> field is an
  array and holds a user message), so the response is the event stream, and that stream
  is not one that ends with the sentinel.
\<close>

theorem C3_witness:
  "truthy (property hello_request ''messages'')
   \<and> isArray (property hello_request ''messages'')
   \<and> filter is_user (array_items (property hello_request ''messages'')) \<noteq> []
   \<and> response (POST (\<lambda>p. AgentRun [] Throws) (Some hello_request)) \<noteq> EventStream [done_line]"
  using C3_thrown_exception_ends_without_sentinel
  by (simp add: hello_request_def msg_def is_user_def done_line_def)

subsection \<open>Validation\<close>

text \<open>
  C4. A body that carries no user message is answered with status 400 and a JSON body
  with an \<^verbatim>\<open>error\<close> field, and \<^verbatim>\<open>query\<close> is not called. This holds for every body
  other than \<^verbatim>\<open>null\<close> whose field \<^verbatim>\<open>messages\<close> is missing, is not an array, or is an
  array (possibly empty) of entries other than \<^verbatim>\<open>null\<close> none of which has the role
  \<^verbatim>\<open>user\<close>: the answer is one of the two validation errors.
\<close>

theorem C4_rejects_without_user_message:
  assumes "b \<noteq> JNull" and "lacks_user_message b"
  shows "(POST query (Some b) = error_response 400 ''Messages array is required''
          \<or> POST query (Some b) = error_response 400 ''No user message found'')
    \<and> queried (POST query (Some b)) = []"
proof (cases "isArray (property b ''messages'')")
  case False
  then have "POST query (Some b) = error_response 400 ''Messages array is required''"
    using assms(1) by (cases b) (simp_all add: POST_def)
  then show ?thesis by (simp add: error_response_def)
next
  case True
  then obtain ms where ms: "property b ''messages'' = Some (JArr ms)"
    by (cases "property b ''messages''" rule: isArray.cases) simp_all
  have "JNull \<notin> set ms" "filter is_user ms = []"
    using assms(2) ms by (auto simp: lacks_user_message_def list_all_iff filter_empty_conv)
  then have "POST query (Some b) = error_response 400 ''No user message found''"
    using assms(1) ms by (cases b) (simp_all add: POST_def)
  then show ?thesis by (simp add: error_response_def)
qed

text \<open>The theorem for a request whose only message is the assistant's.\<close>

theorem C4_witness:
  "JObj [(''messages'', JArr [msg ''assistant'' ''Hello''])] \<noteq> JNull
   \<and> lacks_user_message (JObj [(''messages'', JArr [msg ''assistant'' ''Hello''])])
   \<and> POST (\<lambda>p. AgentRun [] Completes) (Some (JObj [(''messages'', JArr [msg ''assistant'' ''Hello''])]))
       = \<lparr>response = JsonResponse 400 ''{\"error\":\"No user message found\"}'', queried = []\<rparr>"
proof -
  have h: "lacks_user_message (JObj [(''messages'', JArr [msg ''assistant'' ''Hello''])])"
    by (simp add: lacks_user_message_def msg_def is_user_def)
  have "POST (\<lambda>p. AgentRun [] Completes) (Some (JObj [(''messages'', JArr [msg ''assistant'' ''Hello''])]))
        \<noteq> error_response 400 ''Messages array is required''"
    by (simp add: POST_def error_response_def msg_def is_user_def quote_def escape_char_def)
  then show ?thesis
    using h C4_rejects_without_user_message [OF _ h, of "\<lambda>p. AgentRun [] Completes"]
    by (simp add: error_response_def quote_def escape_char_def)
qed

text \<open>
  An array with a \<^verbatim>\<open>null\<close> entry has no entry with the role \<^verbatim>\<open>user\<close>, and the answer is
  not 400: reading \<^verbatim>\<open>role\<close> of \<^verbatim>\<open>null\<close> throws in the \<^verbatim>\<open>filter\<close> callback, and the outer
  \<^verbatim>\<open>catch\<close> block answers 500. (\<^verbatim>\<open>query\<close> is not called here either.)
\<close>

theorem C4_counterexample:
  "filter is_user [JNull] = []
   \<and> POST (\<lambda>p. AgentRun [] Completes) (Some (JObj [(''messages'', JArr [JNull])]))
       = \<lparr>response = JsonResponse 500
            ''{\"error\":\"Failed to process chat request. Check server logs for details.\"}'',
          queried = []\<rparr>"
  by (simp add: POST_def internal_error_def error_response_def is_user_def quote_def
      escape_char_def)

subsection \<open>The prompt\<close>

text \<open>
  For a request of the declared type whose last message is the user's, the prompt is the
  instruction string, the earlier messages as \<^verbatim>\<open>User: ...\<close> and \<^verbatim>\<open>Assistant: ...\<close> lines
  under the heading \<^verbatim>\<open>Previous conversation:\<close> (when there are any), and the last
  message as the final \<^verbatim>\<open>User: ...\<close> line: every message once. This is the shape of
  every request the chat client sends.
\<close>

lemma those_map_Some: "those (map (\<lambda>x. Some (f x)) xs) = Some (map f xs)"
  by (induction xs) simp_all

lemma render_turn_msg: "render_turn (msg r c) = Some (turn_line (r, c))"
  by (simp add: render_turn_def msg_def is_user_def turn_line_def)

lemma is_user_msg: "is_user (msg r c) = (r = ''user'')"
  by (simp add: msg_def is_user_def)

lemma last_filter_keep: "xs \<noteq> [] \<Longrightarrow> P (last xs) \<Longrightarrow> last (filter P xs) = last xs"
  by (induction xs rule: rev_induct) simp_all

lemma prompt_when_last_entry_is_user:
  assumes "turns \<noteq> []" and "fst (last turns) = ''user''"
  shows "POST query (Some (typed_request turns))
         = \<lparr>response = EventStream (stream_start (query
               (fullPrompt (join ''\<newline>\<newline>'' (map turn_line (butlast turns)))
                  (snd (last turns))))),
            queried = [fullPrompt (join ''\<newline>\<newline>'' (map turn_line (butlast turns)))
                         (snd (last turns))]\<rparr>"
proof -
  let ?ms = "map (\<lambda>t. msg (fst t) (snd t)) turns"
  let ?P = "\<lambda>t :: string \<times> string. fst t = ''user''"
  have users: "filter is_user ?ms = map (\<lambda>t. msg (fst t) (snd t)) (filter ?P turns)"
    by (simp add: filter_map o_def is_user_msg)
  have ne: "filter ?P turns \<noteq> []"
    using assms last_in_set [of turns] by (auto simp: filter_empty_conv)
  have "last (filter ?P turns) = last turns"
    using assms by (simp add: last_filter_keep)
  then have lastu: "last (filter is_user ?ms) = msg ''user'' (snd (last turns))"
    using assms(2) ne by (simp add: users last_map)
  have nonnull: "JNull \<notin> set ?ms"
    by (auto simp: msg_def)
  have turns': "those (map render_turn (butlast ?ms)) = Some (map turn_line (butlast turns))"
    by (simp add: map_butlast [symmetric] render_turn_msg o_def those_map_Some)
  have bp: "build_prompt ?ms (msg ''user'' (snd (last turns)))
        = Some (fullPrompt (join ''\<newline>\<newline>'' (map turn_line (butlast turns))) (snd (last turns)))"
    unfolding build_prompt_def turns' by (simp add: msg_def)
  have "filter is_user ?ms \<noteq> []"
    using ne by (simp add: users)
  then obtain u us where cons: "filter is_user ?ms = u # us"
    by (cases "filter is_user ?ms") simp_all
  have "last (u # us) = msg ''user'' (snd (last turns))"
    using lastu cons by simp
  then show ?thesis
    using nonnull cons bp
    by (simp add: POST_def typed_request_def del: last.simps)
qed

text \<open>
  C6. For every valid request the prompt is said to hold the prior turns and then the
  final user turn, no turn twice. The handler drops the last entry of the array
  (\<^verbatim>\<open>slice(0, -1)\<close>, with the comment that the last message is excluded since it is passed
  as the prompt) but passes the last entry with the role \<^verbatim>\<open>user\<close>. For the valid request
  with the user's message \<^verbatim>\<open>A\<close> followed by the assistant's message \<^verbatim>\<open>B\<close>, the two are
  not the same entry: the prompt holds \<^verbatim>\<open>User: A\<close> twice and \<^verbatim>\<open>B\<close> not at all.
\<close>

theorem C6_last_entry_not_user:
  "queried (POST query (Some (typed_request [(''user'', ''A''), (''assistant'', ''B'')])))
   = [SYSTEM_PROMPT @ ''\<newline>\<newline>Previous conversation:\<newline>User: A\<newline>\<newline>User: A'']"
  by (simp add: POST_def typed_request_def msg_def is_user_def build_prompt_def render_turn_def
      fullPrompt_def)

text \<open>
  The request is a valid one: its \<^verbatim>\<open>messages\<close> field is a non-empty array with a
  user-role entry, and the handler answers with the event stream after calling
  \<^verbatim>\<open>query\<close> once, with that prompt.
\<close>

theorem C6_witness:
  "truthy (property (typed_request [(''user'', ''A''), (''assistant'', ''B'')]) ''messages'')
   \<and> isArray (property (typed_request [(''user'', ''A''), (''assistant'', ''B'')]) ''messages'')
   \<and> filter is_user
        (array_items (property (typed_request [(''user'', ''A''), (''assistant'', ''B'')])
           ''messages'')) = [msg ''user'' ''A'']
   \<and> queried (POST (\<lambda>p. AgentRun [] Completes)
        (Some (typed_request [(''user'', ''A''), (''assistant'', ''B'')])))
       = [SYSTEM_PROMPT @ ''\<newline>\<newline>Previous conversation:\<newline>User: A\<newline>\<newline>User: A'']"
  using C6_last_entry_not_user [of "\<lambda>p. AgentRun [] Completes"]
  by (simp add: typed_request_def msg_def is_user_def)

section \<open>Chat client: properties\<close>

subsection \<open>Messages other than the placeholder\<close>






subsection \<open>The streamed text\<close>







subsection \<open>Lines that do not parse\<close>

lemma process_lines_append:
  "process_lines parse sid (xs @ ys) st = process_lines parse sid ys (process_lines parse sid xs st)"
  by (induction xs arbitrary: st) simp_all

lemma read_loop_append:
  "read_loop parse sid (xs @ ys) st = read_loop parse sid ys (read_loop parse sid xs st)"
  by (induction xs arbitrary: st) simp_all

text \<open>
  C9. A line that begins with \<^verbatim>\<open>data: \<close>, whose payload is not the sentinel and is not
  valid JSON, leaves the whole state of the read loop (message list, tool status and the
  two local variables) unchanged, and the loop goes on. Within its chunk, the lines
  before and after it are processed as if the line were not there; and when the line is
  one of the lines of a chunk, the chunks read before it and after it are processed as
  well, whatever they are.
\<close>

theorem C9_malformed_line_is_skipped:
  assumes "startsWith line ''data: ''" and "drop 6 line \<noteq> ''[DONE]''"
    and "parse (drop 6 line) = None"
    and "split CHR 0x0A chunk = before @ line # after"
  shows "process_line parse sid line st = st
    \<and> process_lines parse sid (before @ line # after) st
        = process_lines parse sid (before @ after) st
    \<and> read_loop parse sid (earlier @ chunk # later) st
        = read_loop parse sid later
            (process_lines parse sid (before @ after) (read_loop parse sid earlier st))"
proof -
  have skip: "process_line parse sid line s = s" for s
    using assms(1-3) by (simp add: process_line_def Let_def)
  have lines: "process_lines parse sid (before @ line # after) s
        = process_lines parse sid (before @ after) s" for s
    by (simp add: process_lines_append skip)
  have "read_loop parse sid (earlier @ chunk # later) st
        = read_loop parse sid later
            (process_lines parse sid (before @ line # after) (read_loop parse sid earlier st))"
    by (simp add: read_loop_append assms(4))
  with skip lines show ?thesis by simp
qed

text \<open>
  The theorem for a text delta that arrives cut in two. The first half is a line that
  does not parse; the tool status set by the chunk before it is still there, and the
  completion event in the chunk after it is applied and clears it.
\<close>

theorem C9_witness:
  "startsWith chunk_cut ''data: ''
   \<and> drop 6 chunk_cut \<noteq> ''[DONE]''
   \<and> example_parse (drop 6 chunk_cut) = None
   \<and> split CHR 0x0A chunk_cut = [chunk_cut]
   \<and> process_line example_parse ''m-2'' chunk_cut example_state = example_state
   \<and> read_loop example_parse ''m-2'' [chunk_tool, chunk_cut, chunk_rest] example_state
       = read_loop example_parse ''m-2'' [chunk_rest]
           (read_loop example_parse ''m-2'' [chunk_tool] example_state)
   \<and> map_option tool_name
        (currentTool (read_loop example_parse ''m-2'' [chunk_tool] example_state))
       = Some (Some (JStr ''WebSearch''))
   \<and> currentTool (read_loop example_parse ''m-2'' [chunk_tool, chunk_cut, chunk_rest]
        example_state) = None"
proof -
  have h1: "startsWith chunk_cut ''data: ''"
    by (simp add: startsWith_def chunk_cut_def)
  have h2: "drop 6 chunk_cut \<noteq> ''[DONE]''"
    by (simp add: chunk_cut_def)
  have h3: "example_parse (drop 6 chunk_cut) = None"
    by (simp add: chunk_cut_def example_parse_def quote_def escape_char_def
        text_delta_event_def tool_start_event_def done_event_def error_event_def)
  have h4: "split CHR 0x0A chunk_cut = [] @ chunk_cut # []"
    by (simp add: chunk_cut_def)
  note inst = C9_malformed_line_is_skipped [of chunk_cut example_parse chunk_cut "[]" "[]" "''m-2''" example_state
      "[chunk_tool]" "[chunk_rest]", OF h1 h2 h3 h4]
  have line: "process_line example_parse ''m-2'' chunk_cut example_state = example_state"
    using inst by (rule conjunct1)
  have loop: "read_loop example_parse ''m-2'' [chunk_tool, chunk_cut, chunk_rest] example_state
       = read_loop example_parse ''m-2'' [chunk_rest]
           (read_loop example_parse ''m-2'' [chunk_tool] example_state)"
    using inst by (simp del: read_loop.simps)
  have first: "map_option tool_name
        (currentTool (read_loop example_parse ''m-2'' [chunk_tool] example_state))
       = Some (Some (JStr ''WebSearch''))"
    by (simp add: chunk_tool_def process_line_def apply_parsed_def startsWith_def
        example_parse_def quote_def escape_char_def text_delta_event_def tool_start_event_def
        done_event_def error_event_def example_state_def)
  have rest: "currentTool (read_loop example_parse ''m-2'' [chunk_rest] st) = None" for st
    by (simp add: chunk_rest_def process_line_def apply_parsed_def startsWith_def
        example_parse_def quote_def escape_char_def text_delta_event_def tool_start_event_def
        done_event_def error_event_def)
  have "split CHR 0x0A chunk_cut = [chunk_cut]"
    using h4 by simp
  then show ?thesis
    using h1 h2 h3 line loop first rest by (simp del: read_loop.simps)
qed

end
